theory Spec2Isabelle
  imports Complex_Main "HOL-Library.Product_Lexorder" "HOL-Library.Multiset"
begin

section \<open>World Data Quiz: a shallow embedding of \<^verbatim>\<open>quiz_app.py\<close>\<close>

text \<open>
  The program is one Streamlit script. Streamlit runs the whole script (one \<^emph>\<open>render pass\<close>)
  on every user action and on every auto-refresh tick; what survives from one pass to the
  next is the dictionary \<^verbatim>\<open>st.session_state\<close> and the Google sheet. A pass is modelled as
  a function from the inputs of the pass, the sheet and the session state to the outcome of
  the pass, the sheet and the session state after it. An uncaught exception ends the pass;
  the assignments to the session state made before it stay, as they do in Streamlit.

  What the libraries do is taken as follows. \<^verbatim>\<open>sort_values\<close> on two columns is a stable
  sort. Timestamps are rationals and their difference is exact. The float expression of
  the percentage is built from three operations that are parameters of the model. The
  cells of the sheet and of the question file are read back with the types the program
  wrote or expects (names and answers as strings, scores as integers). Whether a call to
  the sheet succeeds, what the name field holds, which buttons are pressed and what the
  random generator returns are inputs of the pass.
\<close>

subsection \<open>Errors\<close>

datatype error =
    FileNotFoundError         \<comment> \<open>\<^verbatim>\<open>pd.read_csv\<close>: no \<^verbatim>\<open>questions.csv\<close>\<close>
  | ParserError               \<comment> \<open>\<^verbatim>\<open>pd.read_csv\<close>: the file is not a table\<close>
  | APIError                  \<comment> \<open>any exception of \<^verbatim>\<open>gspread\<close>: credentials, network, quota\<close>
  | IndexError
  | KeyError
  | ZeroDivisionError
  | StreamlitAPIException     \<comment> \<open>\<^verbatim>\<open>st.progress\<close> with a value above 1.0\<close>

subsection \<open>Data\<close>

text \<open>One row of \<^verbatim>\<open>questions.csv\<close>, as \<^verbatim>\<open>df.to_dict(orient="records")\<close> gives it.\<close>

record quiz_row =
  question :: string
  options :: string
  answer :: string

text \<open>
  One row of the sheet, columns \<^verbatim>\<open>Name, Score, Total, Percentage\<close>. A percentage is a
  finite float; finite floats are rationals and are ordered as rationals.
\<close>

record attempt =
  Name :: string
  Score :: int
  Total :: int
  Percentage :: rat

text \<open>
  The keys \<^verbatim>\<open>shuffled_questions\<close>, \<^verbatim>\<open>current_q\<close>, \<^verbatim>\<open>score\<close> and \<^verbatim>\<open>colors\<close> of the session
  state are created together (lines 120-124) and deleted together (lines 268-270), so they
  are one optional group. \<^verbatim>\<open>current_q\<close> and \<^verbatim>\<open>score\<close> start at 0 and are only ever
  incremented, hence naturals.
\<close>

record quiz_state =
  shuffled_questions :: "quiz_row list"
  current_q :: nat
  score :: nat
  colors :: "string list"

text \<open>
  The session state. A key that is absent is \<open>None\<close>. \<^verbatim>\<open>answer_<i>\<close> holds \<^verbatim>\<open>None\<close>
  (\<open>Some None\<close>) until the player picks an option in the radio widget of question \<open>i\<close>.
\<close>

record session =
  player_name :: "string option"
  quiz :: "quiz_state option"
  answer_key :: "nat \<rightharpoonup> string option"
  timer :: "nat \<rightharpoonup> int"
  timer_start :: "nat \<rightharpoonup> rat"

text \<open>
  Python's float arithmetic is a parameter: \<open>fdiv\<close> is \<^verbatim>\<open>/\<close> on two ints with a nonzero
  divisor, \<open>fmul\<close> is \<^verbatim>\<open>*\<close>, \<open>fround\<close> is \<^verbatim>\<open>round(x, ndigits)\<close>.
\<close>

record float_ops =
  fdiv :: "int \<Rightarrow> int \<Rightarrow> rat"
  fmul :: "rat \<Rightarrow> rat \<Rightarrow> rat"
  fround :: "rat \<Rightarrow> nat \<Rightarrow> rat"

text \<open>What one pass reads from outside the session state and the sheet.\<close>

record env =
  time_now :: rat                                  \<comment> \<open>\<^verbatim>\<open>time.time()\<close>\<close>
  text_input :: string                             \<comment> \<open>value of the name field\<close>
  submit_clicked :: bool                           \<comment> \<open>\<^verbatim>\<open>st.button("Submit Answer")\<close>\<close>
  play_again_clicked :: bool                       \<comment> \<open>\<^verbatim>\<open>st.button("Play Again")\<close>\<close>
  read_csv :: "error + quiz_row list"              \<comment> \<open>\<^verbatim>\<open>pd.read_csv("questions.csv")\<close>\<close>
  random_sample :: "quiz_row list \<Rightarrow> quiz_row list"  \<comment> \<open>\<^verbatim>\<open>random.sample(questions, len(questions))\<close>\<close>
  random_colors :: "string list"                   \<comment> \<open>five calls of \<^verbatim>\<open>random_color()\<close>\<close>
  sheet_ok :: bool                                 \<comment> \<open>whether the calls to the sheet succeed in this pass\<close>

subsection \<open>The sheet (lines 45-56)\<close>

definition percentage_of :: "float_ops \<Rightarrow> int \<Rightarrow> int \<Rightarrow> error + rat" where
  \<comment> \<open>\<^verbatim>\<open>round((score / total) * 100, 2)\<close>\<close>
  "percentage_of fl sc tot =
     (if tot = 0 then Inl ZeroDivisionError
      else Inr (fround fl (fmul fl (fdiv fl sc tot) 100) 2))"

definition save_score ::
  "float_ops \<Rightarrow> bool \<Rightarrow> string \<Rightarrow> int \<Rightarrow> int \<Rightarrow> attempt list \<Rightarrow> error + attempt list" where
  "save_score fl ok name sc tot sheet =
     (if ok then
        (case percentage_of fl sc tot of
           Inl err \<Rightarrow> Inl err
         | Inr percentage \<Rightarrow>
             Inr (sheet @ [\<lparr>Name = name, Score = sc, Total = tot, Percentage = percentage\<rparr>]))
      else Inl APIError)"

definition load_leaderboard :: "bool \<Rightarrow> attempt list \<Rightarrow> error + attempt list" where
  \<comment> \<open>with no data the frame has the four columns and no row\<close>
  "load_leaderboard ok sheet = (if ok then (if sheet \<noteq> [] then Inr sheet else Inr []) else Inl APIError)"

subsection \<open>Questions (lines 86-89, 140)\<close>

definition load_questions :: "error + quiz_row list \<Rightarrow> error + quiz_row list" where
  \<comment> \<open>the argument is what \<^verbatim>\<open>pd.read_csv\<close> does; the rows are returned as they were read\<close>
  "load_questions csv = (case csv of Inl err \<Rightarrow> Inl err | Inr df \<Rightarrow> Inr df)"

fun split_on :: "char \<Rightarrow> string \<Rightarrow> string list" where
  \<comment> \<open>\<^verbatim>\<open>str.split(sep)\<close> with a separator of one character\<close>
  "split_on c [] = [[]]"
| "split_on c (x # xs) =
     (if x = c then [] # split_on c xs
      else (case split_on c xs of [] \<Rightarrow> [[x]] | y # ys \<Rightarrow> (x # y) # ys))"

definition options_of :: "quiz_row \<Rightarrow> string list" where
  "options_of q = split_on (CHR '';'') (options q)"

subsection \<open>Leaderboard (lines 193-194, 231-232, 253-254, 61-64)\<close>

definition sort_values :: "attempt list \<Rightarrow> attempt list" where
  \<comment> \<open>\<^verbatim>\<open>sort_values(by=["Score", "Percentage"], ascending=[False, False])\<close>: a stable sort\<close>
  "sort_values df = sort_key (\<lambda>r. (- Score r, - Percentage r)) df"

definition head5 :: "attempt list \<Rightarrow> attempt list" where
  "head5 df = take 5 df"

definition player_rank :: "attempt list \<Rightarrow> string \<Rightarrow> error + nat" where
  \<comment> \<open>\<^verbatim>\<open>rank_df.index[rank_df['Name'] == name][0] + 1\<close> on the re-indexed sorted frame\<close>
  "player_rank rank_df name =
     (case filter (\<lambda>i. Name (rank_df ! i) = name) [0 ..< length rank_df] of
        [] \<Rightarrow> Inl IndexError
      | i # _ \<Rightarrow> Inr (i + 1))"

definition rank :: "attempt list \<Rightarrow> string \<Rightarrow> attempt list \<times> (error + nat)" where
  "rank records name =
     (let leaderboard = sort_values records
      in (head5 leaderboard, player_rank leaderboard name))"

datatype chart = NoScoresYet | BarChart "attempt list"

definition show_leaderboard_chart :: "attempt list \<Rightarrow> chart" where
  "show_leaderboard_chart top_players_df =
     (if top_players_df = [] then NoScoresYet else BarChart (rev top_players_df))"

subsection \<open>The render pass (lines 103-271)\<close>

record question_view =
  shown_question :: string
  shown_options :: "string list"
  remaining_sec :: int
  timer_color :: string
  top5_so_far :: "attempt list"
  ranking_chart :: chart

record completed_view =
  your_score :: nat
  your_total :: nat
  your_percentage :: rat
  final_top5 :: "attempt list"
  final_chart :: chart
  final_rank :: nat

datatype outcome =
    NameWarning                      \<comment> \<open>line 115, then \<^verbatim>\<open>return\<close>\<close>
  | Rerun                            \<comment> \<open>\<^verbatim>\<open>st.experimental_rerun()\<close>\<close>
  | QuestionView question_view
  | CompletedView completed_view
  | Raised error

definition time_limit :: int where
  "time_limit = 15"

definition py_int :: "rat \<Rightarrow> int" where
  \<comment> \<open>\<^verbatim>\<open>int(x)\<close> truncates towards zero\<close>
  "py_int x = (if 0 \<le> x then \<lfloor>x\<rfloor> else \<lceil>x\<rceil>)"

definition elapsed_of :: "rat \<Rightarrow> rat \<Rightarrow> int" where
  \<comment> \<open>line 153\<close>
  "elapsed_of now start = py_int (now - start)"

definition remaining_of :: "int \<Rightarrow> int" where
  \<comment> \<open>line 154\<close>
  "remaining_of elapsed = max (time_limit - elapsed) 0"

text \<open>
  Lines 163-175 and lines 179-188 are the same statements (the messages differ): compare the
  value under \<^verbatim>\<open>answer_<i>\<close> with the answer, count the point, save, move on, rerun.
\<close>

definition grade :: "session \<Rightarrow> quiz_state \<Rightarrow> quiz_row \<Rightarrow> quiz_state" where
  \<comment> \<open>lines 163-166 and 179-182: \<^verbatim>\<open>if st.session_state[answer_key] == q["answer"]\<close>\<close>
  "grade s st q =
     (if answer_key s (current_q st) = Some (Some (answer q))
      then st\<lparr>score := score st + 1\<rparr> else st)"

definition submit_answer ::
  "float_ops \<Rightarrow> env \<Rightarrow> attempt list \<Rightarrow> session \<Rightarrow> string \<Rightarrow> quiz_state \<Rightarrow> quiz_row
     \<Rightarrow> outcome \<times> attempt list \<times> session" where
  "submit_answer fl e sheet s name st q =
     (let q_index = current_q st;
          st1 = grade s st q;
          s1 = s\<lparr>quiz := Some st1\<rparr>
      in case save_score fl (sheet_ok e) name (int (score st1)) (int q_index + 1) sheet of
           Inl err \<Rightarrow> (Raised err, sheet, s1)
         | Inr sheet1 \<Rightarrow>
             (Rerun, sheet1, s1\<lparr>quiz := Some (st1\<lparr>current_q := current_q st1 + 1\<rparr>)\<rparr>))"

definition open_question :: "env \<Rightarrow> nat \<Rightarrow> session \<Rightarrow> session" where
  \<comment> \<open>lines 142-143 and 149-151: the keys of a question are created when it is first shown\<close>
  "open_question e q_index s =
     (let s1 = (if answer_key s q_index = None
                then s\<lparr>answer_key := (answer_key s)(q_index \<mapsto> None)\<rparr> else s)
      in if timer s1 q_index = None
         then s1\<lparr>timer := (timer s1)(q_index \<mapsto> time_limit),
                 timer_start := (timer_start s1)(q_index \<mapsto> time_now e)\<rparr>
         else s1)"

definition question_branch ::
  "float_ops \<Rightarrow> env \<Rightarrow> attempt list \<Rightarrow> session \<Rightarrow> string \<Rightarrow> quiz_state
     \<Rightarrow> outcome \<times> attempt list \<times> session" where
  "question_branch fl e sheet s name st =
     (let q_index = current_q st;
          q = shuffled_questions st ! q_index;
          s2 = open_question e q_index s
      in case timer_start s2 q_index of
           None \<Rightarrow> (Raised KeyError, sheet, s2)
         | Some start \<Rightarrow>
             (let remaining = remaining_of (elapsed_of (time_now e) start)
              in if remaining = 0 then submit_answer fl e sheet s2 name st q
                 else if submit_clicked e then submit_answer fl e sheet s2 name st q
                 else (case load_leaderboard (sheet_ok e) sheet of
                         Inl err \<Rightarrow> (Raised err, sheet, s2)
                       | Inr records \<Rightarrow>
                           (let top5 = head5 (sort_values records)
                            in (QuestionView
                                  \<lparr>shown_question = question q,
                                   shown_options = options_of q,
                                   remaining_sec = remaining,
                                   timer_color = (if remaining \<le> 5 then ''red'' else ''black''),
                                   top5_so_far = top5,
                                   ranking_chart = show_leaderboard_chart top5\<rparr>,
                                sheet, s2)))))"

definition completed_branch ::
  "float_ops \<Rightarrow> env \<Rightarrow> attempt list \<Rightarrow> session \<Rightarrow> string \<Rightarrow> quiz_state
     \<Rightarrow> outcome \<times> attempt list \<times> session" where
  "completed_branch fl e sheet s name st =
     (let tot = length (shuffled_questions st)
      in case percentage_of fl (int (score st)) (int tot) of
           Inl err \<Rightarrow> (Raised err, sheet, s)
         | Inr percentage \<Rightarrow>
             (case load_leaderboard (sheet_ok e) sheet of
                Inl err \<Rightarrow> (Raised err, sheet, s)
              | Inr records \<Rightarrow>
                  (case rank records name of
                     (top5, Inl err) \<Rightarrow> (Raised err, sheet, s)
                   | (top5, Inr r) \<Rightarrow>
                       if play_again_clicked e then (Rerun, sheet, s\<lparr>quiz := None\<rparr>)
                       else (CompletedView
                               \<lparr>your_score = score st,
                                your_total = tot,
                                your_percentage = percentage,
                                final_top5 = top5,
                                final_chart = show_leaderboard_chart top5,
                                final_rank = r\<rparr>,
                             sheet, s))))"

definition run_quiz ::
  "float_ops \<Rightarrow> env \<Rightarrow> attempt list \<Rightarrow> session \<Rightarrow> outcome \<times> attempt list \<times> session" where
  "run_quiz fl e sheet s =
     (let name = (case player_name s of None \<Rightarrow> text_input e | Some n \<Rightarrow> n);
          s1 = s\<lparr>player_name := Some name\<rparr>
      in if name = [] then (NameWarning, sheet, s1)
         else (case load_questions (read_csv e) of
                 Inl err \<Rightarrow> (Raised err, sheet, s1)
               | Inr questions \<Rightarrow>
                   (let st = (case quiz s1 of
                                None \<Rightarrow> \<lparr>shuffled_questions = random_sample e questions,
                                         current_q = 0, score = 0,
                                         colors = random_colors e\<rparr>
                              | Some st0 \<Rightarrow> st0);
                        s2 = s1\<lparr>quiz := Some st\<rparr>;
                        n = length (shuffled_questions st)
                    in if n = 0 then (Raised ZeroDivisionError, sheet, s2)
                       else if n < current_q st then (Raised StreamlitAPIException, sheet, s2)
                       else if current_q st < n then question_branch fl e sheet s2 name st
                       else completed_branch fl e sheet s2 name st)))"

text \<open>
  Between two passes the player may pick an option of the radio widget of the question on
  display; Streamlit stores the choice under the widget's key.
\<close>

definition select_option :: "nat \<Rightarrow> string \<Rightarrow> session \<Rightarrow> session" where
  "select_option q_index choice s = s\<lparr>answer_key := (answer_key s)(q_index \<mapsto> Some choice)\<rparr>"

subsection \<open>Sessions as sequences of events\<close>

text \<open>
  A session is a sequence of events: the player picks an option of the question on display,
  or Streamlit runs a pass (after a click, or on the refresh tick).
\<close>

datatype event = Pick string | Pass env

fun handle :: "float_ops \<Rightarrow> event \<Rightarrow> attempt list \<times> session \<Rightarrow> attempt list \<times> session" where
  "handle fl (Pick choice) (sheet, s) =
     (sheet, (case quiz s of None \<Rightarrow> s | Some st \<Rightarrow> select_option (current_q st) choice s))"
| "handle fl (Pass e) (sheet, s) = snd (run_quiz fl e sheet s)"

definition run_session ::
  "float_ops \<Rightarrow> event list \<Rightarrow> attempt list \<times> session \<Rightarrow> attempt list \<times> session" where
  "run_session fl evs start = foldl (\<lambda>w ev. handle fl ev w) start evs"

definition score_le_index :: "session \<Rightarrow> bool" where
  "score_le_index s = (case quiz s of None \<Rightarrow> True | Some st \<Rightarrow> score st \<le> current_q st)"

fun writes_ok :: "event \<Rightarrow> bool" where
  "writes_ok (Pick choice) = True"
| "writes_ok (Pass e) = sheet_ok e"

subsection \<open>Concrete inputs used in the examples\<close>

definition exact_ops :: float_ops where
  \<comment> \<open>arithmetic without rounding error, rounding halves up: exact on the values used below\<close>
  "exact_ops = \<lparr>fdiv = (\<lambda>a b. of_int a / of_int b), fmul = (\<lambda>x y. x * y),
                 fround = (\<lambda>x n. of_int (round (x * 10 ^ n)) / 10 ^ n)\<rparr>"

definition q_france :: quiz_row where
  "q_france = \<lparr>question = ''Capital of France?'', options = ''Paris;Rome;Oslo'',
                answer = ''Paris''\<rparr>"

definition q_ocean :: quiz_row where
  \<comment> \<open>a row whose options do not contain its answer\<close>
  "q_ocean = \<lparr>question = ''Largest ocean?'', options = ''Atlantic;Indian'',
               answer = ''Pacific''\<rparr>"

definition tick :: "rat \<Rightarrow> bool \<Rightarrow> env" where
  \<comment> \<open>a refresh tick at time \<open>t\<close>: no button pressed\<close>
  "tick t ok = \<lparr>time_now = t, text_input = [], submit_clicked = False,
                 play_again_clicked = False, read_csv = Inr [q_france, q_ocean],
                 random_sample = (\<lambda>qs. qs), random_colors = [], sheet_ok = ok\<rparr>"

definition bob_at_q0 :: session where
  \<comment> \<open>Bob sees question 0 since time 100 and has picked Paris, without submitting\<close>
  "bob_at_q0 = \<lparr>player_name = Some ''Bob'',
                 quiz = Some \<lparr>shuffled_questions = [q_france, q_ocean], current_q = 0,
                              score = 0, colors = []\<rparr>,
                 answer_key = [0 \<mapsto> Some ''Paris''],
                 timer = [0 \<mapsto> 15],
                 timer_start = [0 \<mapsto> 100]\<rparr>"

definition bob_done :: session where
  \<comment> \<open>Bob has been through both questions\<close>
  "bob_done = \<lparr>player_name = Some ''Bob'',
                quiz = Some \<lparr>shuffled_questions = [q_france, q_ocean], current_q = 2,
                             score = 1, colors = []\<rparr>,
                answer_key = [0 \<mapsto> Some ''Paris'', 1 \<mapsto> None],
                timer = [0 \<mapsto> 15, 1 \<mapsto> 15],
                timer_start = [0 \<mapsto> 100, 1 \<mapsto> 110]\<rparr>"

definition bob_rows :: "attempt list" where
  "bob_rows = [\<lparr>Name = ''Bob'', Score = 1, Total = 1, Percentage = 100\<rparr>,
               \<lparr>Name = ''Bob'', Score = 1, Total = 2, Percentage = 50\<rparr>]"

definition ann_rows :: "attempt list" where
  "ann_rows = [\<lparr>Name = ''Ann'', Score = 2, Total = 2, Percentage = 100\<rparr>]"

section \<open>Properties\<close>

subsection \<open>Auxiliary facts\<close>

lemmas pass_defs =
  run_quiz_def question_branch_def completed_branch_def submit_answer_def grade_def
  open_question_def save_score_def
  percentage_of_def load_questions_def load_leaderboard_def remaining_of_def elapsed_of_def
  py_int_def time_limit_def Let_def rank_def head5_def sort_values_def player_rank_def
  show_leaderboard_chart_def options_of_def

lemmas example_defs =
  exact_ops_def q_france_def q_ocean_def tick_def bob_at_q0_def bob_done_def bob_rows_def
  ann_rows_def

lemma no_index_matches: "filter P [0..<n] = [] \<longleftrightarrow> (\<forall>i<n. \<not> P i)"
  by (auto simp: filter_empty_conv)

lemma first_index_matches:
  "filter P [0..<n] = i # rest \<Longrightarrow> i < n \<and> P i \<and> (\<forall>j<i. \<not> P j)"
proof (induction n arbitrary: rest)
  case 0
  then show ?case by simp
next
  case (Suc n)
  from Suc.prems
  have step: "filter P [0..<n] @ (if P n then [n] else []) = i # rest"
    by (simp split: if_splits)
  show ?case
  proof (cases "filter P [0..<n]")
    case Nil
    with step have "(if P n then [n] else []) = i # rest" by simp
    then have "P n \<and> i = n" by (simp split: if_splits)
    moreover from Nil have "\<forall>j<n. \<not> P j" by (simp only: no_index_matches)
    ultimately show ?thesis by simp
  next
    case (Cons k ks)
    with step have "k = i" by simp
    with Cons have "filter P [0..<n] = i # ks" by simp
    then have "i < n \<and> P i \<and> (\<forall>j<i. \<not> P j)" by (rule Suc.IH)
    then show ?thesis by simp
  qed
qed

lemma sort_values_descending:
  "sorted_wrt (\<lambda>a b. Score b < Score a \<or> (Score a = Score b \<and> Percentage b \<le> Percentage a))
     (sort_values df)"
proof -
  have "sorted (map (\<lambda>r. (- Score r, - Percentage r)) (sort_values df))"
    by (simp add: sort_values_def)
  then have "sorted_wrt (\<lambda>a b. (- Score a, - Percentage a) \<le> (- Score b, - Percentage b))
               (sort_values df)"
    by (simp add: sorted_map)
  then show ?thesis
    by (rule sorted_wrt_mono_rel [rotated]) auto
qed

lemma sort_values_stable:
  "filter (\<lambda>r. Score r = sc \<and> Percentage r = p) (sort_values df) =
   filter (\<lambda>r. Score r = sc \<and> Percentage r = p) df"
  using sort_key_stable [of "\<lambda>r. (- Score r, - Percentage r)" "(- sc, - p)" df]
  by (simp add: sort_values_def)

lemma sort_values_mset: "mset (sort_values df) = mset df"
  by (simp add: sort_values_def)

lemma sort_values_length: "length (sort_values df) = length df"
  by (simp add: sort_values_def)

lemma sort_values_names: "Name ` set (sort_values df) = Name ` set df"
  by (simp add: sort_values_def)

lemma player_rank_first:
  assumes "name \<in> Name ` set df"
  shows "\<exists>i<length df. player_rank df name = Inr (i + 1) \<and> Name (df ! i) = name \<and>
           (\<forall>j<i. Name (df ! j) \<noteq> name)"
proof -
  from assms obtain k where k: "k < length df" "Name (df ! k) = name"
    by (auto simp: in_set_conv_nth)
  then have "filter (\<lambda>i. Name (df ! i) = name) [0..<length df] \<noteq> []"
    by (auto simp: no_index_matches)
  then obtain i rest where f: "filter (\<lambda>i. Name (df ! i) = name) [0..<length df] = i # rest"
    by (cases "filter (\<lambda>i. Name (df ! i) = name) [0..<length df]") auto
  from first_index_matches [OF f] f show ?thesis
    by (auto simp: player_rank_def)
qed

lemma player_rank_none:
  assumes "name \<notin> Name ` set df"
  shows "player_rank df name = Inl IndexError"
proof -
  have "filter (\<lambda>i. Name (df ! i) = name) [0..<length df] = []"
    unfolding no_index_matches using assms by (metis nth_mem imageI)
  then show ?thesis by (simp add: player_rank_def)
qed

lemma run_quiz_in_progress:
  "player_name s = Some name \<Longrightarrow> name \<noteq> [] \<Longrightarrow> read_csv e = Inr qs \<Longrightarrow> quiz s = Some st \<Longrightarrow>
   current_q st < length (shuffled_questions st) \<Longrightarrow>
   run_quiz fl e sheet s = question_branch fl e sheet s name st"
  by (cases s) (auto simp add: run_quiz_def load_questions_def Let_def)

lemma run_quiz_completed:
  "player_name s = Some name \<Longrightarrow> name \<noteq> [] \<Longrightarrow> read_csv e = Inr qs \<Longrightarrow> quiz s = Some st \<Longrightarrow>
   current_q st = length (shuffled_questions st) \<Longrightarrow> shuffled_questions st \<noteq> [] \<Longrightarrow>
   run_quiz fl e sheet s = completed_branch fl e sheet s name st"
  by (cases s) (auto simp add: run_quiz_def load_questions_def Let_def)

subsection \<open>Leaderboard ranking\<close>

text \<open>
  Claim C1. The ranking sorts all records by score descending, then percentage descending,
  and the sort is stable: the result has the same records as the input, is in descending
  order of (score, percentage), and keeps the records of equal score and percentage in the
  order of the input. \<open>top5\<close> is the first \<open>min 5 (length records)\<close> records of the sorted
  sequence (the pass of a question in progress shows that same prefix). When some record
  has the player's name, \<open>player_rank\<close> is the 1-based position, in the whole sorted
  sequence, of the first such record. On the records A (5, 80), B (5, 90), C (3, 100) and
  the player B, the result is \<open>top5 = [B, A, C]\<close> and \<open>player_rank = 1\<close>, whatever the
  totals.
\<close>

theorem rank_stable_sort_top5_first_match:
  "mset (sort_values records) = mset records
   \<and> sorted_wrt (\<lambda>a b. Score b < Score a \<or> (Score a = Score b \<and> Percentage b \<le> Percentage a))
        (sort_values records)
   \<and> (\<forall>sc p. filter (\<lambda>r. Score r = sc \<and> Percentage r = p) (sort_values records) =
              filter (\<lambda>r. Score r = sc \<and> Percentage r = p) records)
   \<and> fst (rank records name) = take (min 5 (length records)) (sort_values records)
   \<and> head5 (sort_values records) = fst (rank records name)
   \<and> (name \<in> Name ` set records \<longrightarrow>
        (\<exists>i<length records.
           snd (rank records name) = Inr (i + 1) \<and>
           Name (sort_values records ! i) = name \<and>
           (\<forall>j<i. Name (sort_values records ! j) \<noteq> name)))
   \<and> rank [\<lparr>Name = ''A'', Score = 5, Total = ta, Percentage = 80\<rparr>,
            \<lparr>Name = ''B'', Score = 5, Total = tb, Percentage = 90\<rparr>,
            \<lparr>Name = ''C'', Score = 3, Total = tc, Percentage = 100\<rparr>] ''B'' =
       ([\<lparr>Name = ''B'', Score = 5, Total = tb, Percentage = 90\<rparr>,
         \<lparr>Name = ''A'', Score = 5, Total = ta, Percentage = 80\<rparr>,
         \<lparr>Name = ''C'', Score = 3, Total = tc, Percentage = 100\<rparr>], Inr 1)"
proof -
  have top: "fst (rank records name) = take (min 5 (length records)) (sort_values records)"
    by (simp add: rank_def head5_def Let_def sort_values_length min_def)
  have same: "head5 (sort_values records) = fst (rank records name)"
    by (simp add: rank_def Let_def)
  have pos: "name \<in> Name ` set records \<longrightarrow>
        (\<exists>i<length records.
           snd (rank records name) = Inr (i + 1) \<and>
           Name (sort_values records ! i) = name \<and>
           (\<forall>j<i. Name (sort_values records ! j) \<noteq> name))"
    using player_rank_first [of name "sort_values records"]
    by (simp add: rank_def Let_def sort_values_names sort_values_length)
  have ex: "rank [\<lparr>Name = ''A'', Score = 5, Total = ta, Percentage = 80\<rparr>,
            \<lparr>Name = ''B'', Score = 5, Total = tb, Percentage = 90\<rparr>,
            \<lparr>Name = ''C'', Score = 3, Total = tc, Percentage = 100\<rparr>] ''B'' =
       ([\<lparr>Name = ''B'', Score = 5, Total = tb, Percentage = 90\<rparr>,
         \<lparr>Name = ''A'', Score = 5, Total = ta, Percentage = 80\<rparr>,
         \<lparr>Name = ''C'', Score = 3, Total = tc, Percentage = 100\<rparr>], Inr 1)"
    by (simp add: rank_def sort_values_def head5_def player_rank_def upt_conv_Cons)
  show ?thesis
  proof (intro conjI allI)
    show "mset (sort_values records) = mset records"
      by (rule sort_values_mset)
  qed (rule sort_values_descending sort_values_stable top same pos ex)+
qed

theorem rank_stable_sort_top5_first_match_witness:
  "''Bob'' \<in> Name ` set (ann_rows @ bob_rows)
   \<and> (\<exists>i<length (ann_rows @ bob_rows).
         snd (rank (ann_rows @ bob_rows) ''Bob'') = Inr (i + 1) \<and>
         Name (sort_values (ann_rows @ bob_rows) ! i) = ''Bob'' \<and>
         (\<forall>j<i. Name (sort_values (ann_rows @ bob_rows) ! j) \<noteq> ''Bob''))
   \<and> snd (rank (ann_rows @ bob_rows) ''Bob'') = Inr 2"
proof -
  have h: "''Bob'' \<in> Name ` set (ann_rows @ bob_rows)"
    by (simp add: example_defs)
  have v: "snd (rank (ann_rows @ bob_rows) ''Bob'') = Inr 2"
    by (simp add: example_defs rank_def sort_values_def head5_def player_rank_def upt_conv_Cons)
  have "''Bob'' \<in> Name ` set (ann_rows @ bob_rows) \<longrightarrow>
        (\<exists>i<length (ann_rows @ bob_rows).
           snd (rank (ann_rows @ bob_rows) ''Bob'') = Inr (i + 1) \<and>
           Name (sort_values (ann_rows @ bob_rows) ! i) = ''Bob'' \<and>
           (\<forall>j<i. Name (sort_values (ann_rows @ bob_rows) ! j) \<noteq> ''Bob''))"
    by (rule rank_stable_sort_top5_first_match [of "ann_rows @ bob_rows" "''Bob''",
          THEN conjunct2, THEN conjunct2, THEN conjunct2, THEN conjunct2, THEN conjunct2,
          THEN conjunct1])
  with h have "\<exists>i<length (ann_rows @ bob_rows).
           snd (rank (ann_rows @ bob_rows) ''Bob'') = Inr (i + 1) \<and>
           Name (sort_values (ann_rows @ bob_rows) ! i) = ''Bob'' \<and>
           (\<forall>j<i. Name (sort_values (ann_rows @ bob_rows) ! j) \<noteq> ''Bob'')"
    by (rule rev_mp)
  with h v show ?thesis by (intro conjI)
qed

subsection \<open>Facts about the steps of a pass\<close>

lemma grade_fields:
  "current_q (grade s st q) = current_q st"
  "shuffled_questions (grade s st q) = shuffled_questions st"
  "score (grade s st q) =
     score st + (if answer_key s (current_q st) = Some (Some (answer q)) then 1 else 0)"
  by (simp_all add: grade_def)

lemma open_question_fields:
  "player_name (open_question e i s) = player_name s"
  "quiz (open_question e i s) = quiz s"
  "answer_key (open_question e i s) i = Some (Some a) \<longleftrightarrow> answer_key s i = Some (Some a)"
  "timer_start (open_question e i s) i =
     (if timer s i = None then Some (time_now e) else timer_start s i)"
  by (auto simp add: open_question_def Let_def)

lemma open_question_keeps_timer:
  "timer s i \<noteq> None \<Longrightarrow> timer (open_question e i s) = timer s"
  "timer s i \<noteq> None \<Longrightarrow> timer_start (open_question e i s) = timer_start s"
  by (auto simp add: open_question_def Let_def)

lemma grade_open_question:
  "grade (open_question e (current_q st) s) st q = grade s st q"
  by (simp add: grade_def open_question_fields)

lemma submit_answer_saved:
  "sheet_ok e \<Longrightarrow>
   submit_answer fl e sheet s name st q =
     (Rerun,
      sheet @ [\<lparr>Name = name, Score = int (score (grade s st q)), Total = int (current_q st) + 1,
                Percentage = fround fl (fmul fl (fdiv fl (int (score (grade s st q)))
                                                   (int (current_q st) + 1)) 100) 2\<rparr>],
      s\<lparr>quiz := Some ((grade s st q)\<lparr>current_q := current_q st + 1\<rparr>)\<rparr>)"
  by (simp add: submit_answer_def save_score_def percentage_of_def Let_def grade_fields)

lemma submit_answer_failed:
  "\<not> sheet_ok e \<Longrightarrow>
   submit_answer fl e sheet s name st q = (Raised APIError, sheet, s\<lparr>quiz := Some (grade s st q)\<rparr>)"
  by (simp add: submit_answer_def save_score_def Let_def)

subsection \<open>The pass of a finished quiz\<close>

text \<open>
  Claim C10. On the pass of a finished quiz the rank of the player is the index of the first
  row of the sorted sheet that carries the player's name (lines 253-254). The computation
  presupposes such a row: whenever the sheet that was read has no row with the player's
  name, the lookup raises \<^verbatim>\<open>IndexError\<close> and the pass ends with it, before the
  congratulation and the Play Again button. With such a row the pass does not raise
  \<^verbatim>\<open>IndexError\<close>.
\<close>

theorem completed_rank_needs_a_row_of_the_player:
  assumes "player_name s = Some name" and "name \<noteq> []" and "read_csv e = Inr qs"
    and "quiz s = Some st" and "current_q st = length (shuffled_questions st)"
    and "shuffled_questions st \<noteq> []" and "sheet_ok e"
  shows "(name \<notin> Name ` set sheet \<longrightarrow>
            snd (rank sheet name) = Inl IndexError \<and>
            run_quiz fl e sheet s = (Raised IndexError, sheet, s))
         \<and> (name \<in> Name ` set sheet \<longrightarrow> fst (run_quiz fl e sheet s) \<noteq> Raised IndexError)"
proof -
  have pass: "run_quiz fl e sheet s = completed_branch fl e sheet s name st"
    using assms by (simp add: run_quiz_completed)
  have pct: "percentage_of fl (int (score st)) (int (length (shuffled_questions st))) =
               Inr (fround fl (fmul fl (fdiv fl (int (score st))
                      (int (length (shuffled_questions st)))) 100) 2)"
    using assms(6) by (simp add: percentage_of_def)
  have rd: "load_leaderboard (sheet_ok e) sheet = Inr sheet"
    using assms(7) by (simp add: load_leaderboard_def)
  have rk: "rank sheet name = (head5 (sort_values sheet), player_rank (sort_values sheet) name)"
    by (simp add: rank_def Let_def)
  show ?thesis
  proof (intro conjI impI)
    assume absent: "name \<notin> Name ` set sheet"
    then have none: "player_rank (sort_values sheet) name = Inl IndexError"
      by (simp add: player_rank_none sort_values_names)
    with rk show "snd (rank sheet name) = Inl IndexError" by simp
    from none rk pct rd show "run_quiz fl e sheet s = (Raised IndexError, sheet, s)"
      by (simp add: pass completed_branch_def Let_def)
  next
    assume "name \<in> Name ` set sheet"
    then have "name \<in> Name ` set (sort_values sheet)"
      by (simp add: sort_values_names)
    from player_rank_first [OF this] obtain i where
      "player_rank (sort_values sheet) name = Inr (i + 1)" by blast
    with rk pct rd show "fst (run_quiz fl e sheet s) \<noteq> Raised IndexError"
      by (simp add: pass completed_branch_def Let_def)
  qed
qed

theorem completed_rank_needs_a_row_of_the_player_witness:
  "''Bob'' \<notin> Name ` set ann_rows
   \<and> run_quiz exact_ops (tick 130 True) ann_rows bob_done = (Raised IndexError, ann_rows, bob_done)
   \<and> ''Bob'' \<in> Name ` set (ann_rows @ bob_rows)
   \<and> fst (run_quiz exact_ops (tick 130 True) (ann_rows @ bob_rows) bob_done) \<noteq> Raised IndexError"
proof -
  have a: "''Bob'' \<notin> Name ` set ann_rows" by (simp add: example_defs)
  have b: "''Bob'' \<in> Name ` set (ann_rows @ bob_rows)" by (simp add: example_defs)
  have h: "player_name bob_done = Some ''Bob''" "''Bob'' \<noteq> []"
    "read_csv (tick 130 True) = Inr [q_france, q_ocean]"
    "quiz bob_done = Some \<lparr>shuffled_questions = [q_france, q_ocean], current_q = 2,
                             score = 1, colors = []\<rparr>"
    "current_q \<lparr>shuffled_questions = [q_france, q_ocean], current_q = 2,
                             score = 1, colors = []\<rparr> = length (shuffled_questions \<lparr>shuffled_questions = [q_france, q_ocean], current_q = 2,
                             score = 1, colors = []\<rparr>)"
    "shuffled_questions \<lparr>shuffled_questions = [q_france, q_ocean], current_q = 2,
                             score = 1, colors = []\<rparr> \<noteq> []"
    "sheet_ok (tick 130 True)"
    by (simp_all add: tick_def bob_done_def)
  from completed_rank_needs_a_row_of_the_player [OF h, of ann_rows exact_ops] a
  have 1: "run_quiz exact_ops (tick 130 True) ann_rows bob_done = (Raised IndexError, ann_rows, bob_done)"
    by simp
  from completed_rank_needs_a_row_of_the_player [OF h, of "ann_rows @ bob_rows" exact_ops] b
  have 2: "fst (run_quiz exact_ops (tick 130 True) (ann_rows @ bob_rows) bob_done) \<noteq> Raised IndexError"
    by simp
  from a 1 b 2 show ?thesis by (intro conjI)
qed

subsection \<open>Facts about a whole pass\<close>

lemma grade_ignores_name_and_quiz:
  "grade (s\<lparr>player_name := a\<rparr>) st q = grade s st q"
  "grade (s\<lparr>quiz := b\<rparr>) st q = grade s st q"
  by (simp_all add: grade_def)

lemma run_quiz_keeps_or_submits:
  assumes "quiz s = Some st" and "run_quiz fl e sheet s = (out, sheet', s')"
  shows "(quiz s' = None \<and> sheet' = sheet)
       \<or> (quiz s' = Some st \<and> sheet' = sheet)
       \<or> submit_answer fl e sheet
            (open_question e (current_q st)
               (s\<lparr>player_name := Some (case player_name s of None \<Rightarrow> text_input e | Some n \<Rightarrow> n),
                  quiz := Some st\<rparr>))
            (case player_name s of None \<Rightarrow> text_input e | Some n \<Rightarrow> n)
            st (shuffled_questions st ! current_q st) = (out, sheet', s')"
  using assms
  apply (simp add: run_quiz_def Let_def load_questions_def split: if_splits sum.splits)
  apply (auto simp add: question_branch_def completed_branch_def Let_def
        open_question_fields 
        split: if_splits sum.splits option.splits prod.splits)
  done

lemma pass_keeps_score_le_index:
  assumes "sheet_ok e" and "score_le_index s" and "run_quiz fl e sheet s = (out, sheet', s')"
  shows "score_le_index s'"
  using assms
  apply (simp add: run_quiz_def Let_def load_questions_def split: if_splits sum.splits)
  apply (auto simp add: question_branch_def completed_branch_def Let_def score_le_index_def
        open_question_fields submit_answer_saved grade_fields
        split: if_splits sum.splits option.splits prod.splits)
  done

lemma pick_keeps_score_le_index:
  "score_le_index s \<Longrightarrow> score_le_index (snd (handle fl (Pick c) (sheet, s)))"
  by (simp add: score_le_index_def select_option_def split: option.splits)

lemma event_keeps_score_le_index:
  assumes "writes_ok ev" and "score_le_index (snd w)"
  shows "score_le_index (snd (handle fl ev w))"
proof (cases w)
  case (Pair sheet s)
  show ?thesis
  proof (cases ev)
    case (Pick c)
    with Pair assms pick_keeps_score_le_index [of s fl c sheet] show ?thesis by simp
  next
    case (Pass e)
    obtain out sheet' s' where r: "run_quiz fl e sheet s = (out, sheet', s')"
      by (cases "run_quiz fl e sheet s") auto
    with Pair Pass assms pass_keeps_score_le_index [of e s fl sheet out sheet' s']
    show ?thesis by simp
  qed
qed

lemma session_keeps_score_le_index:
  "list_all writes_ok evs \<Longrightarrow> score_le_index (snd w) \<Longrightarrow>
   score_le_index (snd (run_session fl evs w))"
proof (induction evs arbitrary: w)
  case Nil
  then show ?case by (simp add: run_session_def)
next
  case (Cons ev evs)
  from Cons.prems have "score_le_index (snd (handle fl ev w))"
    by (simp add: event_keeps_score_le_index)
  with Cons.prems Cons.IH [of "handle fl ev w"] show ?case
    by (simp add: run_session_def)
qed

subsection \<open>Question advance\<close>

text \<open>
  Claim C3. Whenever a pass moves a session from question \<open>i\<close> to question \<open>i + 1\<close>, the
  value stored for the answer of question \<open>i\<close> has been compared with the answer of the
  question, the score has grown by one exactly when they are equal, and the row (player
  name, new score, \<open>i + 1\<close>, \<^verbatim>\<open>round(score / (i + 1) * 100, 2)\<close>) has been appended to
  the sheet; the pass ends in a rerun. The index moves only after the write: a pass whose
  write does not succeed does not move it.
\<close>

theorem advance_grades_then_saves_then_moves:
  assumes "quiz s = Some st" and "run_quiz fl e sheet s = (out, sheet', s')"
    and "quiz s' = Some st'" and "current_q st' = current_q st + 1"
  shows "out = Rerun \<and> sheet_ok e
       \<and> score st' = score st +
            (if answer_key s (current_q st) =
                  Some (Some (answer (shuffled_questions st ! current_q st)))
             then 1 else 0)
       \<and> (\<exists>name. player_name s' = Some name \<and>
            sheet' = sheet @
              [\<lparr>Name = name, Score = int (score st'), Total = int (current_q st) + 1,
                Percentage = fround fl (fmul fl (fdiv fl (int (score st'))
                                                   (int (current_q st) + 1)) 100) 2\<rparr>])"
proof -
  let ?name = "case player_name s of None \<Rightarrow> text_input e | Some n \<Rightarrow> n"
  let ?q = "shuffled_questions st ! current_q st"
  let ?s2 = "open_question e (current_q st) (s\<lparr>player_name := Some ?name, quiz := Some st\<rparr>)"
  have g: "grade ?s2 st ?q = grade s st ?q"
    by (simp add: grade_open_question grade_ignores_name_and_quiz)
  have nm: "player_name ?s2 = Some ?name"
    by (simp add: open_question_fields)
  from assms(3,4) have moved: "quiz s' \<noteq> None" "quiz s' \<noteq> Some st" by auto
  with run_quiz_keeps_or_submits [OF assms(1,2)]
  have sub: "submit_answer fl e sheet ?s2 ?name st ?q = (out, sheet', s')" by blast
  have ok: "sheet_ok e"
  proof (rule ccontr)
    assume "\<not> sheet_ok e"
    with sub g have "s' = ?s2\<lparr>quiz := Some (grade s st ?q)\<rparr>"
      by (simp add: submit_answer_failed)
    then have "quiz s' = Some (grade s st ?q)" by simp
    with assms(3) have "st' = grade s st ?q" by simp
    then have "current_q st' = current_q st" by (simp only: grade_fields)
    with assms(4) show False by simp
  qed
  from sub g ok have res:
    "out = Rerun"
    "sheet' = sheet @
       [\<lparr>Name = ?name, Score = int (score (grade s st ?q)), Total = int (current_q st) + 1,
         Percentage = fround fl (fmul fl (fdiv fl (int (score (grade s st ?q)))
                                            (int (current_q st) + 1)) 100) 2\<rparr>]"
    "s' = ?s2\<lparr>quiz := Some ((grade s st ?q)\<lparr>current_q := current_q st + 1\<rparr>)\<rparr>"
    by (simp_all add: submit_answer_saved)
  from res(3) assms(3) have st': "st' = (grade s st ?q)\<lparr>current_q := current_q st + 1\<rparr>"
    by simp
  then have sc: "score st' = score (grade s st ?q)" by simp
  from res(3) nm have "player_name s' = Some ?name" by simp
  with res(1,2) ok sc show ?thesis
    by (simp add: grade_fields)
qed

theorem advance_grades_then_saves_then_moves_witness:
  "run_quiz exact_ops (tick 120 True) [] bob_at_q0 =
     (Rerun, [\<lparr>Name = ''Bob'', Score = 1, Total = 1, Percentage = 100\<rparr>],
      bob_at_q0\<lparr>quiz := Some \<lparr>shuffled_questions = [q_france, q_ocean], current_q = 1,
                              score = 1, colors = []\<rparr>\<rparr>)
   \<and> sheet_ok (tick 120 True)
   \<and> answer_key bob_at_q0 0 = Some (Some (answer q_france))"
proof -
  let ?st = "\<lparr>shuffled_questions = [q_france, q_ocean], current_q = 0, score = 0, colors = []\<rparr>"
  let ?st' = "\<lparr>shuffled_questions = [q_france, q_ocean], current_q = 1, score = 1, colors = []\<rparr>"
  have r: "run_quiz exact_ops (tick 120 True) [] bob_at_q0 =
     (Rerun, [\<lparr>Name = ''Bob'', Score = 1, Total = 1, Percentage = 100\<rparr>],
      bob_at_q0\<lparr>quiz := Some ?st'\<rparr>)"
    by (simp add: pass_defs example_defs)
  have h1: "quiz bob_at_q0 = Some ?st" by (simp add: bob_at_q0_def)
  have h3: "quiz (bob_at_q0\<lparr>quiz := Some ?st'\<rparr>) = Some ?st'" by simp
  have h4: "current_q ?st' = current_q ?st + 1" by simp
  from advance_grades_then_saves_then_moves [OF h1 r h3 h4]
  have "sheet_ok (tick 120 True)" by simp
  moreover have "answer_key bob_at_q0 0 = Some (Some (answer q_france))"
    by (simp add: example_defs)
  ultimately show ?thesis using r by simp
qed

subsection \<open>Time up\<close>

lemma question_branch_submits:
  assumes "timer s (current_q st) = Some budget" and "timer_start s (current_q st) = Some t0"
    and "remaining_of (elapsed_of (time_now e) t0) = 0 \<or> submit_clicked e"
  shows "question_branch fl e sheet s name st =
           submit_answer fl e sheet (open_question e (current_q st) s) name st
             (shuffled_questions st ! current_q st)"
  using assms by (auto simp add: question_branch_def Let_def open_question_fields)

text \<open>
  Claim C9. When the time of a question is up (the remaining time is 0) and the player has
  not pressed Submit, the pass compares the option stored by the radio widget with the
  answer of the question: the score grows by one exactly when they are equal, so an option
  that was selected and never submitted earns the point, and a question without any
  selection (\<^verbatim>\<open>None\<close>) earns none. With the sheet available the pass then moves to the
  next question and reruns.
\<close>

theorem timeout_counts_the_selected_option:
  assumes "player_name s = Some name" and "name \<noteq> []" and "read_csv e = Inr qs"
    and "quiz s = Some st" and "current_q st < length (shuffled_questions st)"
    and "timer s (current_q st) = Some budget" and "timer_start s (current_q st) = Some t0"
    and "remaining_of (elapsed_of (time_now e) t0) = 0" and "\<not> submit_clicked e"
    and "run_quiz fl e sheet s = (out, sheet', s')"
  shows "\<exists>st'. quiz s' = Some st'
       \<and> score st' = score st +
            (if answer_key s (current_q st) =
                  Some (Some (answer (shuffled_questions st ! current_q st)))
             then 1 else 0)
       \<and> (answer_key s (current_q st) = Some None \<longrightarrow> score st' = score st)
       \<and> (sheet_ok e \<longrightarrow> out = Rerun \<and> current_q st' = current_q st + 1)"
proof -
  let ?q = "shuffled_questions st ! current_q st"
  let ?s2 = "open_question e (current_q st) s"
  have "run_quiz fl e sheet s = question_branch fl e sheet s name st"
    using assms(1-5) by (rule run_quiz_in_progress)
  also have "\<dots> = submit_answer fl e sheet ?s2 name st ?q"
    using assms(6,7,8) by (simp add: question_branch_submits)
  finally have sub: "submit_answer fl e sheet ?s2 name st ?q = (out, sheet', s')"
    using assms(10) by simp
  have g: "grade ?s2 st ?q = grade s st ?q" by (rule grade_open_question)
  show ?thesis
  proof (cases "sheet_ok e")
    case True
    with sub g have "s' = ?s2\<lparr>quiz := Some ((grade s st ?q)\<lparr>current_q := current_q st + 1\<rparr>)\<rparr>"
      and "out = Rerun"
      by (simp_all add: submit_answer_saved)
    then show ?thesis by (simp add: grade_fields)
  next
    case False
    with sub g have "s' = ?s2\<lparr>quiz := Some (grade s st ?q)\<rparr>"
      by (simp add: submit_answer_failed)
    with False show ?thesis by (simp add: grade_fields)
  qed
qed

theorem timeout_counts_the_selected_option_witness:
  "remaining_of (elapsed_of (time_now (tick 120 True)) 100) = 0
   \<and> \<not> submit_clicked (tick 120 True)
   \<and> answer_key bob_at_q0 0 = Some (Some (answer q_france))
   \<and> (\<exists>st'. quiz (snd (snd (run_quiz exact_ops (tick 120 True) [] bob_at_q0))) = Some st'
         \<and> score st' = 1 \<and> current_q st' = 1)"
proof -
  let ?st = "\<lparr>shuffled_questions = [q_france, q_ocean], current_q = 0, score = 0, colors = []\<rparr>"
  let ?st' = "\<lparr>shuffled_questions = [q_france, q_ocean], current_q = 1, score = 1, colors = []\<rparr>"
  have r: "run_quiz exact_ops (tick 120 True) [] bob_at_q0 =
     (Rerun, [\<lparr>Name = ''Bob'', Score = 1, Total = 1, Percentage = 100\<rparr>],
      bob_at_q0\<lparr>quiz := Some ?st'\<rparr>)"
    by (simp add: pass_defs example_defs)
  have h: "player_name bob_at_q0 = Some ''Bob''" "''Bob'' \<noteq> []"
    "read_csv (tick 120 True) = Inr [q_france, q_ocean]"
    "quiz bob_at_q0 = Some ?st" "current_q ?st < length (shuffled_questions ?st)"
    "timer bob_at_q0 (current_q ?st) = Some 15" "timer_start bob_at_q0 (current_q ?st) = Some 100"
    "remaining_of (elapsed_of (time_now (tick 120 True)) 100) = 0"
    "\<not> submit_clicked (tick 120 True)"
    by (simp_all add: example_defs remaining_of_def elapsed_of_def py_int_def time_limit_def)
  have a: "answer_key bob_at_q0 0 = Some (Some (answer q_france))"
    by (simp add: example_defs)
  from timeout_counts_the_selected_option [OF h r] a
  have "\<exists>st'. quiz (bob_at_q0\<lparr>quiz := Some ?st'\<rparr>) = Some st' \<and> score st' = 1 \<and> current_q st' = 1"
    by (simp add: tick_def)
  with h(8,9) a r show ?thesis by simp
qed

subsection \<open>A write that fails\<close>

text \<open>
  Claim C5, as stated, does not hold: \<^verbatim>\<open>save_score\<close> is called without any handler, so an
  exception of the sheet ends the pass before \<^verbatim>\<open>current_q\<close> is incremented. At time 120
  Bob's question 0 is over; with the sheet available the pass moves to question 1, with
  the sheet unavailable it raises and stays at question 0.
\<close>

theorem failed_write_does_not_advance_counterexample:
  "fst (run_quiz exact_ops (tick 120 False) [] bob_at_q0) = Raised APIError
   \<and> map_option current_q (quiz (snd (snd (run_quiz exact_ops (tick 120 False) [] bob_at_q0))))
       = Some 0
   \<and> map_option current_q (quiz (snd (snd (run_quiz exact_ops (tick 120 True) [] bob_at_q0))))
       = Some 1"
  by (simp add: pass_defs example_defs)

text \<open>
  Claim C5, amended. If the write to the sheet fails during a question advance (time up, or
  Submit pressed), the exception ends the pass. The session survives it: the score has
  been updated as on a successful write (one more exactly when the stored answer is the
  right one), nothing is appended to the sheet, and \<^verbatim>\<open>current_q\<close> is not advanced. With
  the sheet available the same pass advances \<^verbatim>\<open>current_q\<close> by one.
\<close>

theorem failed_write_keeps_score_but_not_index:
  assumes "player_name s = Some name" and "name \<noteq> []" and "read_csv e = Inr qs"
    and "quiz s = Some st" and "current_q st < length (shuffled_questions st)"
    and "timer s (current_q st) = Some budget" and "timer_start s (current_q st) = Some t0"
    and "remaining_of (elapsed_of (time_now e) t0) = 0 \<or> submit_clicked e"
    and "run_quiz fl e sheet s = (out, sheet', s')"
  shows "\<exists>st'. quiz s' = Some st'
       \<and> score st' = score st +
            (if answer_key s (current_q st) =
                  Some (Some (answer (shuffled_questions st ! current_q st)))
             then 1 else 0)
       \<and> (\<not> sheet_ok e \<longrightarrow>
            out = Raised APIError \<and> sheet' = sheet \<and> current_q st' = current_q st)
       \<and> (sheet_ok e \<longrightarrow> out = Rerun \<and> current_q st' = current_q st + 1)"
proof -
  let ?q = "shuffled_questions st ! current_q st"
  let ?s2 = "open_question e (current_q st) s"
  have "run_quiz fl e sheet s = question_branch fl e sheet s name st"
    using assms(1-5) by (rule run_quiz_in_progress)
  also have "\<dots> = submit_answer fl e sheet ?s2 name st ?q"
    using assms(6,7,8) by (rule question_branch_submits)
  finally have sub: "submit_answer fl e sheet ?s2 name st ?q = (out, sheet', s')"
    using assms(9) by simp
  have g: "grade ?s2 st ?q = grade s st ?q" by (rule grade_open_question)
  show ?thesis
  proof (cases "sheet_ok e")
    case True
    with sub g have "s' = ?s2\<lparr>quiz := Some ((grade s st ?q)\<lparr>current_q := current_q st + 1\<rparr>)\<rparr>"
      and "out = Rerun"
      by (simp_all add: submit_answer_saved)
    with True show ?thesis by (simp add: grade_fields)
  next
    case False
    with sub g have "s' = ?s2\<lparr>quiz := Some (grade s st ?q)\<rparr>"
      and "out = Raised APIError" and "sheet' = sheet"
      by (simp_all add: submit_answer_failed)
    with False show ?thesis by (simp add: grade_fields)
  qed
qed

theorem failed_write_keeps_score_but_not_index_witness:
  "\<not> sheet_ok (tick 120 False)
   \<and> (remaining_of (elapsed_of (time_now (tick 120 False)) 100) = 0
        \<or> submit_clicked (tick 120 False))
   \<and> run_quiz exact_ops (tick 120 False) [] bob_at_q0 =
       (Raised APIError, [],
        bob_at_q0\<lparr>quiz := Some \<lparr>shuffled_questions = [q_france, q_ocean], current_q = 0,
                                score = 1, colors = []\<rparr>\<rparr>)
   \<and> (\<exists>st'. quiz (bob_at_q0\<lparr>quiz := Some \<lparr>shuffled_questions = [q_france, q_ocean],
                                            current_q = 0, score = 1, colors = []\<rparr>\<rparr>) = Some st'
         \<and> score st' = 1 \<and> current_q st' = 0)"
proof -
  let ?st = "\<lparr>shuffled_questions = [q_france, q_ocean], current_q = 0, score = 0, colors = []\<rparr>"
  let ?st' = "\<lparr>shuffled_questions = [q_france, q_ocean], current_q = 0, score = 1, colors = []\<rparr>"
  have r: "run_quiz exact_ops (tick 120 False) [] bob_at_q0 =
     (Raised APIError, [], bob_at_q0\<lparr>quiz := Some ?st'\<rparr>)"
    by (simp add: pass_defs example_defs)
  have h: "player_name bob_at_q0 = Some ''Bob''" "''Bob'' \<noteq> []"
    "read_csv (tick 120 False) = Inr [q_france, q_ocean]"
    "quiz bob_at_q0 = Some ?st" "current_q ?st < length (shuffled_questions ?st)"
    "timer bob_at_q0 (current_q ?st) = Some 15" "timer_start bob_at_q0 (current_q ?st) = Some 100"
    "remaining_of (elapsed_of (time_now (tick 120 False)) 100) = 0 \<or> submit_clicked (tick 120 False)"
    by (simp_all add: example_defs remaining_of_def elapsed_of_def py_int_def time_limit_def)
  have n: "\<not> sheet_ok (tick 120 False)" by (simp add: tick_def)
  have a: "answer_key bob_at_q0 0 = Some (Some (answer q_france))"
    by (simp add: example_defs)
  from failed_write_keeps_score_but_not_index [OF h r] a n
  have "\<exists>st'. quiz (bob_at_q0\<lparr>quiz := Some ?st'\<rparr>) = Some st' \<and> score st' = 1 \<and> current_q st' = 0"
    by simp
  with n h(8) r show ?thesis by simp
qed

subsection \<open>Score and index\<close>

text \<open>
  Claim C2, as stated, does not hold in a session where a write to the sheet fails. Bob has
  picked the right option of question 0 and its time is up. The pass at time 120 counts the
  point and then raises in \<^verbatim>\<open>save_score\<close>; the pass at time 125 finds the time still up,
  counts the point again, saves and moves on: after this advance the score is 2 and the
  index is 1.
\<close>

theorem score_exceeds_index_after_failed_write_counterexample:
  "score_le_index bob_at_q0
   \<and> fst (run_quiz exact_ops (tick 125 True) []
            (snd (snd (run_quiz exact_ops (tick 120 False) [] bob_at_q0)))) = Rerun
   \<and> quiz (snd (run_session exact_ops [Pass (tick 120 False), Pass (tick 125 True)]
                  ([], bob_at_q0)))
       = Some \<lparr>shuffled_questions = [q_france, q_ocean], current_q = 1, score = 2, colors = []\<rparr>
   \<and> \<not> score_le_index (snd (run_session exact_ops [Pass (tick 120 False), Pass (tick 125 True)]
                                ([], bob_at_q0)))"
  by (simp add: run_session_def score_le_index_def pass_defs example_defs)

text \<open>
  Claim C2, amended. In every session in which no write to the sheet fails,
  \<open>score \<le> current_q\<close> holds after every event, whatever the events are (option picked,
  refresh tick, Submit, Play Again). Every pass that changes the index of a running quiz
  increments it by exactly one and increments the score by at most one.
\<close>

theorem score_le_index_while_writes_succeed:
  "(list_all writes_ok evs \<and> score_le_index s \<longrightarrow>
      score_le_index (snd (run_session fl evs (sheet, s))))
   \<and> (quiz s = Some st \<and> run_quiz fl e sheet s = (out, sheet', s') \<and> quiz s' = Some st' \<and>
      current_q st' \<noteq> current_q st \<longrightarrow>
        current_q st' = current_q st + 1 \<and> score st \<le> score st' \<and> score st' \<le> score st + 1)"
proof -
  have whole: "list_all writes_ok evs \<and> score_le_index s \<longrightarrow>
      score_le_index (snd (run_session fl evs (sheet, s)))"
    by (simp add: session_keeps_score_le_index)
  have single: "quiz s = Some st \<and> run_quiz fl e sheet s = (out, sheet', s') \<and>
      quiz s' = Some st' \<and> current_q st' \<noteq> current_q st \<longrightarrow>
        current_q st' = current_q st + 1 \<and> score st \<le> score st' \<and> score st' \<le> score st + 1"
  proof (rule impI)
  assume a: "quiz s = Some st \<and> run_quiz fl e sheet s = (out, sheet', s') \<and>
             quiz s' = Some st' \<and> current_q st' \<noteq> current_q st"
  let ?name = "case player_name s of None \<Rightarrow> text_input e | Some n \<Rightarrow> n"
  let ?q = "shuffled_questions st ! current_q st"
  let ?s2 = "open_question e (current_q st) (s\<lparr>player_name := Some ?name, quiz := Some st\<rparr>)"
  from a have q: "quiz s = Some st" and r: "run_quiz fl e sheet s = (out, sheet', s')"
    and q': "quiz s' = Some st'" and ne: "current_q st' \<noteq> current_q st"
    by simp_all
  from q' ne have "quiz s' \<noteq> None" "quiz s' \<noteq> Some st" by auto
  with run_quiz_keeps_or_submits [OF q r]
  have sub: "submit_answer fl e sheet ?s2 ?name st ?q = (out, sheet', s')" by blast
  have ok: "sheet_ok e"
  proof (rule ccontr)
    assume "\<not> sheet_ok e"
    with sub have "s' = ?s2\<lparr>quiz := Some (grade ?s2 st ?q)\<rparr>"
      by (simp add: submit_answer_failed)
    with q' have "st' = grade ?s2 st ?q" by simp
    then have "current_q st' = current_q st" by (simp only: grade_fields)
    with ne show False by simp
  qed
  with sub have "s' = ?s2\<lparr>quiz := Some ((grade ?s2 st ?q)\<lparr>current_q := current_q st + 1\<rparr>)\<rparr>"
    by (simp add: submit_answer_saved)
  with q' have st': "st' = (grade ?s2 st ?q)\<lparr>current_q := current_q st + 1\<rparr>" by simp
  then have "current_q st' = current_q st + 1" "score st' = score (grade ?s2 st ?q)"
    by simp_all
  then show "current_q st' = current_q st + 1 \<and> score st \<le> score st' \<and> score st' \<le> score st + 1"
    by (simp add: grade_fields)
qed
  from whole single show ?thesis by (rule conjI)
qed

theorem score_le_index_while_writes_succeed_witness:
  "list_all writes_ok [Pass (tick 103 True), Pick ''Rome'', Pick ''Paris'', Pass (tick 120 True)]
   \<and> score_le_index bob_at_q0
   \<and> score_le_index (snd (run_session exact_ops
        [Pass (tick 103 True), Pick ''Rome'', Pick ''Paris'', Pass (tick 120 True)]
        ([], bob_at_q0)))
   \<and> quiz (snd (run_session exact_ops
        [Pass (tick 103 True), Pick ''Rome'', Pick ''Paris'', Pass (tick 120 True)]
        ([], bob_at_q0)))
       = Some \<lparr>shuffled_questions = [q_france, q_ocean], current_q = 1, score = 1, colors = []\<rparr>"
proof -
  let ?evs = "[Pass (tick 103 True), Pick ''Rome'', Pick ''Paris'', Pass (tick 120 True)]"
  have w: "list_all writes_ok ?evs" by (simp add: tick_def)
  have i: "score_le_index bob_at_q0" by (simp add: score_le_index_def bob_at_q0_def)
  from score_le_index_while_writes_succeed [of ?evs bob_at_q0 exact_ops "[]"] w i
  have inv: "score_le_index (snd (run_session exact_ops ?evs ([], bob_at_q0)))"
    by blast
  have v: "quiz (snd (run_session exact_ops ?evs ([], bob_at_q0)))
       = Some \<lparr>shuffled_questions = [q_france, q_ocean], current_q = 1, score = 1, colors = []\<rparr>"
    by (simp add: run_session_def select_option_def pass_defs example_defs)
  from w i inv v show ?thesis by (intro conjI)
qed

subsection \<open>The timer\<close>

lemma elapsed_of_bounds:
  assumes "start \<le> now"
  shows "0 \<le> elapsed_of now start \<and> of_int (elapsed_of now start) \<le> now - start
         \<and> now - start < of_int (elapsed_of now start) + 1"
proof -
  from assms have "0 \<le> now - start" by simp
  then have "elapsed_of now start = \<lfloor>now - start\<rfloor>"
    by (simp add: elapsed_of_def py_int_def)
  moreover from \<open>0 \<le> now - start\<close> have "0 \<le> \<lfloor>now - start\<rfloor>" by simp
  ultimately show ?thesis by (simp add: floor_less_iff[symmetric] le_floor_iff[symmetric]) linarith
qed

lemma question_view_remaining:
  assumes "run_quiz fl e sheet s = (QuestionView v, sheet', s')" and "quiz s' = Some st"
  shows "\<exists>t0. timer_start s' (current_q st) = Some t0
           \<and> remaining_sec v = remaining_of (elapsed_of (time_now e) t0)"
  using assms
  apply (simp add: run_quiz_def Let_def load_questions_def split: if_splits sum.splits)
  apply (auto simp add: question_branch_def completed_branch_def submit_answer_def Let_def
        open_question_fields
        split: if_splits sum.splits option.splits prod.splits)
  done

lemma pass_keeps_running_timer:
  assumes "run_quiz fl e sheet s = (out, sheet', s')" and "quiz s = Some st"
    and "timer s (current_q st) = Some budget"
  shows "timer s' = timer s \<and> timer_start s' = timer_start s"
  using assms
  apply (simp add: run_quiz_def Let_def load_questions_def split: if_splits sum.splits)
  apply (auto simp add: question_branch_def completed_branch_def submit_answer_def Let_def
        open_question_fields open_question_keeps_timer
        split: if_splits sum.splits option.splits prod.splits)
  done

text \<open>
  Claim C4. The remaining time on display is \<open>max (15 - elapsed) 0\<close>, where \<open>elapsed\<close> is
  the whole number of seconds since the start of the question (\<^verbatim>\<open>int\<close> of the difference
  of the two timestamps): 15 at 0 seconds, 0 at 15 seconds, 0 at every later time, never
  negative. The value is computed in each pass from the time of the pass and the start
  timestamp stored for the question; a pass on a question whose timer is running changes
  neither the stored start timestamp nor the value under \<^verbatim>\<open>timer_<i>\<close>, so no countdown
  is stored.
\<close>

theorem remaining_is_recomputed_from_start:
  "remaining_of el = max (15 - el) 0 \<and> 0 \<le> remaining_of el
   \<and> remaining_of 0 = 15 \<and> remaining_of 15 = 0
   \<and> (15 < el \<longrightarrow> remaining_of el = 0)
   \<and> (start \<le> now \<longrightarrow>
        0 \<le> elapsed_of now start \<and> of_int (elapsed_of now start) \<le> now - start \<and>
        now - start < of_int (elapsed_of now start) + 1)
   \<and> (run_quiz fl e sheet s = (QuestionView v, sheet', s') \<and> quiz s' = Some st \<longrightarrow>
        (\<exists>t0. timer_start s' (current_q st) = Some t0 \<and>
              remaining_sec v = remaining_of (elapsed_of (time_now e) t0)))
   \<and> (run_quiz fl e sheet s = (out, sheet', s') \<and> quiz s = Some st \<and>
        timer s (current_q st) = Some budget \<longrightarrow>
        timer s' = timer s \<and> timer_start s' = timer_start s)"
proof -
  have a: "remaining_of el = max (15 - el) 0" "0 \<le> remaining_of el"
    "remaining_of 0 = 15" "remaining_of 15 = 0" "15 < el \<longrightarrow> remaining_of el = 0"
    by (simp_all add: remaining_of_def time_limit_def)
  have b: "start \<le> now \<longrightarrow>
        0 \<le> elapsed_of now start \<and> of_int (elapsed_of now start) \<le> now - start \<and>
        now - start < of_int (elapsed_of now start) + 1"
    by (rule impI) (rule elapsed_of_bounds)
  have c: "run_quiz fl e sheet s = (QuestionView v, sheet', s') \<and> quiz s' = Some st \<longrightarrow>
        (\<exists>t0. timer_start s' (current_q st) = Some t0 \<and>
              remaining_sec v = remaining_of (elapsed_of (time_now e) t0))"
    using question_view_remaining [of fl e sheet s v sheet' s' st] by blast
  have d: "run_quiz fl e sheet s = (out, sheet', s') \<and> quiz s = Some st \<and>
        timer s (current_q st) = Some budget \<longrightarrow>
        timer s' = timer s \<and> timer_start s' = timer_start s"
    using pass_keeps_running_timer [of fl e sheet s out sheet' s' st budget] by blast
  from a b c d show ?thesis by (intro conjI)
qed

theorem remaining_is_recomputed_from_start_witness:
  "(100::rat) \<le> 103 \<and> elapsed_of 103 100 = 3
   \<and> run_quiz exact_ops (tick 103 True) [] bob_at_q0 =
       (QuestionView \<lparr>shown_question = ''Capital of France?'',
                      shown_options = [''Paris'', ''Rome'', ''Oslo''], remaining_sec = 12,
                      timer_color = ''black'', top5_so_far = [], ranking_chart = NoScoresYet\<rparr>,
        [], bob_at_q0)
   \<and> (\<exists>t0. timer_start bob_at_q0 0 = Some t0 \<and> remaining_of (elapsed_of 103 t0) = 12)
   \<and> timer bob_at_q0 0 = Some 15"
proof -
  let ?v = "\<lparr>shown_question = ''Capital of France?'',
             shown_options = [''Paris'', ''Rome'', ''Oslo''], remaining_sec = 12,
             timer_color = ''black'', top5_so_far = [], ranking_chart = NoScoresYet\<rparr>"
  have r: "run_quiz exact_ops (tick 103 True) [] bob_at_q0 = (QuestionView ?v, [], bob_at_q0)"
    by (simp add: pass_defs example_defs)
  have q: "quiz bob_at_q0 =
     Some \<lparr>shuffled_questions = [q_france, q_ocean], current_q = 0, score = 0, colors = []\<rparr>"
    by (simp add: bob_at_q0_def)
  have el: "elapsed_of 103 100 = 3" by (simp add: elapsed_of_def py_int_def)
  from remaining_is_recomputed_from_start
         [of 3 100 103 exact_ops "tick 103 True" "[]" bob_at_q0 ?v "[]" bob_at_q0
             "\<lparr>shuffled_questions = [q_france, q_ocean], current_q = 0, score = 0, colors = []\<rparr>"]
       r q
  have "\<exists>t0. timer_start bob_at_q0 0 = Some t0 \<and> remaining_of (elapsed_of 103 t0) = 12"
    by (simp add: tick_def)
  moreover have "timer bob_at_q0 0 = Some 15" by (simp add: bob_at_q0_def)
  ultimately show ?thesis using r el by simp
qed

subsection \<open>Reading the sheet during a question\<close>

text \<open>
  Claim C6, as stated, does not hold: \<^verbatim>\<open>load_leaderboard\<close> is called without any handler
  (line 192), so an exception of the sheet ends the pass. At time 103 Bob's question 0 is
  running and nothing is submitted; with the sheet unavailable the pass raises instead of
  showing an empty leaderboard.
\<close>

theorem failed_read_raises_counterexample:
  "run_quiz exact_ops (tick 103 False) [] bob_at_q0 = (Raised APIError, [], bob_at_q0)"
  by (simp add: pass_defs example_defs)

text \<open>
  Claim C6, amended. If reading the sheet fails during the pass of a running question (time
  left, Submit not pressed), the exception ends the pass: no leaderboard is rendered and
  the sheet is untouched. The empty leaderboard with its placeholder is what the pass
  shows when the read succeeds and the sheet has no row. The pass of a running question
  computes no player rank in either case.
\<close>

theorem failed_read_ends_the_pass:
  assumes "player_name s = Some name" and "name \<noteq> []" and "read_csv e = Inr qs"
    and "quiz s = Some st" and "current_q st < length (shuffled_questions st)"
    and "timer s (current_q st) = Some budget" and "timer_start s (current_q st) = Some t0"
    and "remaining_of (elapsed_of (time_now e) t0) \<noteq> 0" and "\<not> submit_clicked e"
  shows "(\<not> sheet_ok e \<longrightarrow>
            run_quiz fl e sheet s = (Raised APIError, sheet, open_question e (current_q st) s))
       \<and> (sheet_ok e \<longrightarrow>
            (\<exists>v. run_quiz fl e [] s = (QuestionView v, [], open_question e (current_q st) s)
                 \<and> top5_so_far v = [] \<and> ranking_chart v = NoScoresYet))"
proof -
  have "run_quiz fl e sheet s = question_branch fl e sheet s name st" for sheet
    using assms(1-5) by (rule run_quiz_in_progress)
  moreover have "timer_start (open_question e (current_q st) s) (current_q st) = Some t0"
    using assms(6,7) by (simp add: open_question_fields)
  ultimately show ?thesis
    using assms(8,9)
    by (simp add: question_branch_def Let_def load_leaderboard_def head5_def
        sort_values_def show_leaderboard_chart_def)
qed

theorem failed_read_ends_the_pass_witness:
  "remaining_of (elapsed_of (time_now (tick 103 False)) 100) \<noteq> 0
   \<and> \<not> submit_clicked (tick 103 False) \<and> \<not> sheet_ok (tick 103 False)
   \<and> run_quiz exact_ops (tick 103 False) bob_rows bob_at_q0 =
        (Raised APIError, bob_rows, open_question (tick 103 False) 0 bob_at_q0)"
proof -
  let ?st = "\<lparr>shuffled_questions = [q_france, q_ocean], current_q = 0, score = 0, colors = []\<rparr>"
  have h: "player_name bob_at_q0 = Some ''Bob''" "''Bob'' \<noteq> []"
    "read_csv (tick 103 False) = Inr [q_france, q_ocean]"
    "quiz bob_at_q0 = Some ?st" "current_q ?st < length (shuffled_questions ?st)"
    "timer bob_at_q0 (current_q ?st) = Some 15" "timer_start bob_at_q0 (current_q ?st) = Some 100"
    "remaining_of (elapsed_of (time_now (tick 103 False)) 100) \<noteq> 0"
    "\<not> submit_clicked (tick 103 False)"
    by (simp_all add: example_defs remaining_of_def elapsed_of_def py_int_def time_limit_def)
  have n: "\<not> sheet_ok (tick 103 False)" by (simp add: tick_def)
  from failed_read_ends_the_pass [OF h, of exact_ops bob_rows] n
  have "run_quiz exact_ops (tick 103 False) bob_rows bob_at_q0 =
        (Raised APIError, bob_rows, open_question (tick 103 False) 0 bob_at_q0)"
    by simp
  with h(8,9) n show ?thesis by (intro conjI)
qed

subsection \<open>Loading the questions\<close>

text \<open>
  Claim C8, as stated, does not hold for a malformed table: \<^verbatim>\<open>load_questions\<close> returns the
  rows of \<^verbatim>\<open>pd.read_csv\<close> as they are and checks nothing. A table with a row whose options
  (\<open>Atlantic;Indian\<close>) do not contain its answer (\<open>Pacific\<close>) is loaded without an error.
\<close>

theorem unchecked_row_is_loaded_counterexample:
  "load_questions (Inr [q_france, q_ocean]) = Inr [q_france, q_ocean]
   \<and> options_of q_ocean = [''Atlantic'', ''Indian'']
   \<and> answer q_ocean \<notin> set (options_of q_ocean)"
  by (simp add: load_questions_def options_of_def q_ocean_def)

text \<open>
  Claim C8, amended. \<^verbatim>\<open>load_questions\<close> fails exactly when reading the file fails (a
  missing or unreadable \<^verbatim>\<open>questions.csv\<close>), with the error of the read, and that failure
  ends the pass: nothing of the quiz is set up. A table that is read is returned row by
  row as it is; the rows are not validated.
\<close>

theorem load_questions_fails_with_the_read_only:
  "load_questions (Inl err) = Inl err
   \<and> load_questions (Inr rows) = Inr rows
   \<and> (player_name s = Some name \<and> name \<noteq> [] \<and> read_csv e = Inl err \<longrightarrow>
        run_quiz fl e sheet s = (Raised err, sheet, s))"
proof -
  have "s\<lparr>player_name := Some name\<rparr> = s" if "player_name s = Some name"
    using that by (cases s) simp
  then show ?thesis
    by (simp add: load_questions_def run_quiz_def Let_def)
qed

theorem load_questions_fails_with_the_read_only_witness:
  "player_name bob_at_q0 = Some ''Bob'' \<and> ''Bob'' \<noteq> []
   \<and> read_csv ((tick 103 True)\<lparr>read_csv := Inl FileNotFoundError\<rparr>) = Inl FileNotFoundError
   \<and> run_quiz exact_ops ((tick 103 True)\<lparr>read_csv := Inl FileNotFoundError\<rparr>) [] bob_at_q0 =
        (Raised FileNotFoundError, [], bob_at_q0)"
proof -
  have h: "player_name bob_at_q0 = Some ''Bob'' \<and> ''Bob'' \<noteq> []
       \<and> read_csv ((tick 103 True)\<lparr>read_csv := Inl FileNotFoundError\<rparr>) = Inl FileNotFoundError"
    by (simp add: bob_at_q0_def)
  from load_questions_fails_with_the_read_only
         [of FileNotFoundError _ bob_at_q0 "''Bob''"
             "(tick 103 True)\<lparr>read_csv := Inl FileNotFoundError\<rparr>" exact_ops "[]"] h
  have "run_quiz exact_ops ((tick 103 True)\<lparr>read_csv := Inl FileNotFoundError\<rparr>) [] bob_at_q0 =
        (Raised FileNotFoundError, [], bob_at_q0)"
    by blast
  with h show ?thesis by simp
qed

subsection \<open>Play Again\<close>

text \<open>
  Claim C7. Play Again deletes the keys \<^verbatim>\<open>shuffled_questions\<close>, \<^verbatim>\<open>current_q\<close>, \<^verbatim>\<open>score\<close>
  and \<^verbatim>\<open>colors\<close> and leaves the sheet as it is; that much of the claim holds. The keys
  \<^verbatim>\<open>timer_<i>\<close> and \<^verbatim>\<open>timer_start_<i>\<close> are not in the list of deleted keys: after the
  restart of Bob's finished quiz the start timestamp of question 0 is still 100. The next
  pass, at time 131, sets up a new quiz and finds the time of its question 0 already over:
  it submits at once and moves to question 1.
\<close>

theorem play_again_keeps_the_timers:
  "run_quiz exact_ops ((tick 130 True)\<lparr>play_again_clicked := True\<rparr>) bob_rows bob_done =
     (Rerun, bob_rows, bob_done\<lparr>quiz := None\<rparr>)
   \<and> timer_start (bob_done\<lparr>quiz := None\<rparr>) 0 = Some 100
   \<and> timer (bob_done\<lparr>quiz := None\<rparr>) 0 = Some 15
   \<and> fst (run_quiz exact_ops (tick 131 True) bob_rows (bob_done\<lparr>quiz := None\<rparr>)) = Rerun
   \<and> map_option current_q
        (quiz (snd (snd (run_quiz exact_ops (tick 131 True) bob_rows (bob_done\<lparr>quiz := None\<rparr>)))))
       = Some 1"
  by (simp add: pass_defs example_defs)

end
